theory Spec2Isabelle
  imports Main
begin

section \<open>Python values used by \<open>main.py\<close>\<close>

text \<open>
  A Python \<open>str\<close> is a sequence of Unicode code points, so it is modelled as a list of
  natural numbers (the texts of the bot contain code points beyond one byte).  An ASCII
  literal is written \<open>lit ''...''\<close>.
\<close>

type_synonym str = "nat list"

definition lit :: "string \<Rightarrow> str" where
  "lit cs = map of_char cs"

text \<open>
  \<open>str.isspace\<close> on one code point: the white space table of CPython
  (\<open>_PyUnicode_IsWhitespace\<close>).
\<close>

definition isspace :: "nat \<Rightarrow> bool" where
  "isspace c \<longleftrightarrow>
     (0x09 \<le> c \<and> c \<le> 0x0D) \<or> (0x1C \<le> c \<and> c \<le> 0x20) \<or> c = 0x85 \<or> c = 0xA0 \<or>
     c = 0x1680 \<or> (0x2000 \<le> c \<and> c \<le> 0x200A) \<or> c = 0x2028 \<or> c = 0x2029 \<or>
     c = 0x202F \<or> c = 0x205F \<or> c = 0x3000"

text \<open>\<open>s.strip()\<close>: white space is removed at both ends.\<close>

definition strip :: "str \<Rightarrow> str" where
  "strip s = rev (dropWhile isspace (rev (dropWhile isspace s)))"

text \<open>
  The slice \<open>xs[i:]\<close>: a negative start counts from the end and is clamped at the
  beginning of the list, a start beyond the end gives the empty list.
\<close>

definition py_slice_from :: "int \<Rightarrow> 'a list \<Rightarrow> 'a list" where
  "py_slice_from i xs =
     (let n = int (length xs);
          start = (if i < 0 then max 0 (n + i) else min i n)
      in drop (nat start) xs)"

text \<open>The exceptions (all subclasses of \<open>Exception\<close>) that the modelled code can meet.\<close>

datatype py_exception =
    APIError str
  | TelegramError str
  | IndexError
  | AttributeError
  | OverflowError
  | UnicodeEncodeError

section \<open>Configuration\<close>

definition TIMEZONE :: str where
  "TIMEZONE = lit ''Asia/Kolkata''"

section \<open>Subscriber table\<close>

text \<open>
  The table \<open>subscribers\<close> of \<open>init_db\<close>: rows with the columns \<open>chat_id\<close> (the integer
  primary key), \<open>first_name\<close> and \<open>timezone\<close>.  The database is the list of its rows, kept
  in the order of the key, which is the order in which SQLite stores and scans a table
  whose primary key is an integer.  Every function below opens the database, runs one
  statement and commits; the model takes the table and returns the new one, or the
  exception that \<open>execute\<close> raises while it binds the parameters, before the statement
  runs and before the commit: then the table is as it was.
\<close>

record subscriber =
  chat_id :: int
  first_name :: str
  timezone :: str

type_synonym db = "subscriber list"

definition init_db :: db where
  "init_db = []"

text \<open>
  The parameters that \<open>sqlite3\<close> can bind: a Python \<open>int\<close> must fit the signed 64-bit
  \<open>INTEGER\<close> of SQLite (otherwise \<open>OverflowError\<close>), and a \<open>str\<close> must be encodable in
  UTF-8, so it has no surrogate code point (otherwise \<open>UnicodeEncodeError\<close>).  The
  parameters are bound in their order, so the chat id is checked first.
\<close>

definition sqlite_integer :: "int \<Rightarrow> bool" where
  "sqlite_integer i \<longleftrightarrow> - (2 ^ 63) \<le> i \<and> i < 2 ^ 63"

definition utf8_text :: "str \<Rightarrow> bool" where
  "utf8_text s = list_all (\<lambda>c. c < 0xD800 \<or> (0xDFFF < c \<and> c \<le> 0x10FFFF)) s"

text \<open>\<open>INSERT OR IGNORE\<close>: a row whose key is already in the table is not inserted.\<close>

definition add_subscriber :: "db \<Rightarrow> int \<Rightarrow> str \<Rightarrow> str \<Rightarrow> py_exception + db" where
  "add_subscriber conn cid fname tz =
     (if \<not> sqlite_integer cid then Inl OverflowError
      else if \<not> (utf8_text fname \<and> utf8_text tz) then Inl UnicodeEncodeError
      else if cid \<in> chat_id ` set conn then Inr conn
      else Inr (insort_key chat_id \<lparr>chat_id = cid, first_name = fname, timezone = tz\<rparr> conn))"

text \<open>\<open>DELETE FROM subscribers WHERE chat_id = ?\<close>\<close>

definition remove_subscriber :: "db \<Rightarrow> int \<Rightarrow> py_exception + db" where
  "remove_subscriber conn cid =
     (if \<not> sqlite_integer cid then Inl OverflowError
      else Inr (filter (\<lambda>r. chat_id r \<noteq> cid) conn))"

text \<open>\<open>SELECT chat_id FROM subscribers\<close>\<close>

definition get_subscribers :: "db \<Rightarrow> int list" where
  "get_subscribers conn = map chat_id conn"

text \<open>
  The handlers \<open>subscribe\<close> and \<open>unsubscribe\<close>, as far as the table goes: the first name
  is \<open>update.effective_user.first_name or ""\<close> and the timezone is the default \<open>TIMEZONE\<close>.
\<close>

definition subscribe :: "db \<Rightarrow> int \<Rightarrow> str option \<Rightarrow> py_exception + db" where
  "subscribe conn cid name =
     add_subscriber conn cid (case name of None \<Rightarrow> [] | Some n \<Rightarrow> n) TIMEZONE"

definition unsubscribe :: "db \<Rightarrow> int \<Rightarrow> py_exception + db" where
  "unsubscribe conn cid = remove_subscriber conn cid"

text \<open>
  A sequence of calls on the table, and the same sequence on a plain set of ids.  Each
  call is made by a handler of its own: an exception ends that handler only, and the
  next call finds the table as the failed call left it, unchanged.  The result of the
  sequence is the exceptions raised, in order, and the table at the end.
\<close>

datatype store_call = Add_subscriber int str str | Remove_subscriber int

fun store_step :: "db \<Rightarrow> store_call \<Rightarrow> py_exception + db" where
  "store_step conn (Add_subscriber cid fname tz) = add_subscriber conn cid fname tz"
| "store_step conn (Remove_subscriber cid) = remove_subscriber conn cid"

fun store_all :: "db \<Rightarrow> store_call list \<Rightarrow> py_exception list \<times> db" where
  "store_all conn [] = ([], conn)"
| "store_all conn (c # cs) =
     (case store_step conn c of
        Inl e \<Rightarrow> (let (es, conn') = store_all conn cs in (e # es, conn'))
      | Inr conn1 \<Rightarrow> store_all conn1 cs)"

fun set_step :: "int set \<Rightarrow> store_call \<Rightarrow> int set" where
  "set_step S (Add_subscriber cid fname tz) = insert cid S"
| "set_step S (Remove_subscriber cid) = S - {cid}"

text \<open>The calls whose parameters can be bound.\<close>

fun bindable :: "store_call \<Rightarrow> bool" where
  "bindable (Add_subscriber cid fname tz) = (sqlite_integer cid \<and> utf8_text fname \<and> utf8_text tz)"
| "bindable (Remove_subscriber cid) = sqlite_integer cid"

section \<open>Conversation context and the reply generator\<close>

text \<open>
  \<open>USER_CONTEXT\<close> is a dictionary from chat ids to lists of \<open>(role, text)\<close> tuples.  It is a
  module global that \<open>chat_with_groq\<close> mutates, so the model takes it and returns it.
\<close>

type_synonym turn = "str \<times> str"

type_synonym user_context = "int \<rightharpoonup> turn list"

definition MAX_HISTORY :: int where
  "MAX_HISTORY = 5"

text \<open>\<open>USER_CONTEXT.get(chat_id, [])\<close>\<close>

definition get_history :: "user_context \<Rightarrow> int \<Rightarrow> turn list" where
  "get_history ctx cid = (case ctx cid of None \<Rightarrow> [] | Some h \<Rightarrow> h)"

text \<open>
  The request to the provider: the dictionaries \<open>{"role": r, "content": c}\<close> and the
  keyword arguments of \<open>chat.completions.create\<close> (the sampling temperature, a floating
  point constant, is not part of the model).
\<close>

record chat_message =
  role :: str
  content :: str

record request =
  model :: str
  messages :: "chat_message list"
  max_tokens :: int

text \<open>
  The response of the provider is read through \<open>resp.choices[0].message.content\<close> only:
  it is the list of its choices, each one the content of its message, which may be
  \<open>None\<close>.  A client is what \<open>chat.completions.create\<close> does with a request: it raises
  or returns a response.  Without \<open>GROQ_API_KEY\<close> there is no client.
\<close>

type_synonym completion = "str option list"

type_synonym groq = "request \<Rightarrow> py_exception + completion"


definition UNAVAILABLE_REPLY :: str where
  "UNAVAILABLE_REPLY =
     lit ''Sorry, my AI chat service is currently unavailable. But remember: You've got this!''"

definition ERROR_REPLY :: str where
  "ERROR_REPLY =
     lit ''I'm here for you '' @ [0x1F499] @
     lit ''. Take a deep breath and remember you're doing your best.''"

definition SYSTEM_MESSAGE :: chat_message where
  "SYSTEM_MESSAGE =
     \<lparr>role = lit ''system'',
      content =
        lit ''You are a kind motivational assistant. '' @
        lit ''Reply in 2-3 sentences, always positive, encouraging, and supportive. '' @
        lit ''If user is stressed, give calming and simple tips.''\<rparr>"

text \<open>The list \<open>messages\<close> that \<open>chat_with_groq\<close> builds before the call.\<close>

definition build_messages :: "turn list \<Rightarrow> str \<Rightarrow> chat_message list" where
  "build_messages history user_message =
     [SYSTEM_MESSAGE] @
     map (\<lambda>(r, msg). \<lparr>role = r, content = msg\<rparr>) history @
     [\<lparr>role = lit ''user'', content = user_message\<rparr>]"

text \<open>
  The body of the \<open>try\<close>: the call, then \<open>resp.choices[0].message.content.strip()\<close>,
  which raises \<open>IndexError\<close> on an empty list of choices and \<open>AttributeError\<close> on a
  content that is \<open>None\<close>.
\<close>

definition try_reply :: "groq \<Rightarrow> chat_message list \<Rightarrow> py_exception + str" where
  "try_reply client msgs =
     (case client \<lparr>model = lit ''llama-3.1-8b-instant'', messages = msgs, max_tokens = 120\<rparr> of
        Inl e \<Rightarrow> Inl e
      | Inr resp \<Rightarrow>
          (case resp of
             [] \<Rightarrow> Inl IndexError
           | c # _ \<Rightarrow> (case c of None \<Rightarrow> Inl AttributeError | Some s \<Rightarrow> Inr (strip s))))"

text \<open>
  \<open>chat_with_groq\<close> returns the reply and the new \<open>USER_CONTEXT\<close>.  Every exception of
  the \<open>try\<close> is caught (and logged), so the function has no error result.
\<close>

definition chat_with_groq :: "groq option \<Rightarrow> user_context \<Rightarrow> int \<Rightarrow> str \<Rightarrow> str \<times> user_context" where
  "chat_with_groq gc ctx cid user_message =
     (case gc of
        None \<Rightarrow> (UNAVAILABLE_REPLY, ctx)
      | Some client \<Rightarrow>
          (let history = get_history ctx cid;
               msgs = build_messages history user_message;
               reply = (case try_reply client msgs of Inl e \<Rightarrow> ERROR_REPLY | Inr r \<Rightarrow> r);
               history = history @ [(lit ''user'', user_message)];
               history = history @ [(lit ''assistant'', reply)]
           in (reply, ctx(cid \<mapsto> py_slice_from (- MAX_HISTORY * 2) history))))"


text \<open>
  A sequence of calls of \<open>chat_with_groq\<close>, each with the chat id, the text and what the
  provider does at that moment: the replies, and \<open>USER_CONTEXT\<close> at the end.
\<close>

type_synonym chat_call = "groq option \<times> int \<times> str"

fun chat_all :: "user_context \<Rightarrow> chat_call list \<Rightarrow> str list \<times> user_context" where
  "chat_all ctx [] = ([], ctx)"
| "chat_all ctx ((gc, cid, user_message) # calls) =
     (let (reply, ctx') = chat_with_groq gc ctx cid user_message;
          (replies, ctx'') = chat_all ctx' calls
      in (reply # replies, ctx''))"

text \<open>The exchanges of one chat in such a sequence, and the turns they stand for.\<close>

definition exchanges_of :: "int \<Rightarrow> chat_call list \<Rightarrow> str list \<Rightarrow> (str \<times> str) list" where
  "exchanges_of x calls replies =
     map (\<lambda>((gc, cid, user_message), reply). (user_message, reply))
       (filter (\<lambda>((gc, cid, user_message), reply). cid = x) (zip calls replies))"

definition turns_of :: "(str \<times> str) list \<Rightarrow> turn list" where
  "turns_of es = concat (map (\<lambda>(u, a). [(lit ''user'', u), (lit ''assistant'', a)]) es)"

text \<open>
  The invariant of one history: whole pairs of a user turn and an assistant turn, at
  most \<open>MAX_HISTORY\<close> of them.
\<close>

fun paired :: "turn list \<Rightarrow> bool" where
  "paired [] = True"
| "paired [t] = False"
| "paired (t # t' # ts) = (fst t = lit ''user'' \<and> fst t' = lit ''assistant'' \<and> paired ts)"

definition history_ok :: "turn list \<Rightarrow> bool" where
  "history_ok h \<longleftrightarrow> even (length h) \<and> paired h \<and> int (length h) \<le> MAX_HISTORY * 2"

text \<open>Two providers to run the code on: one that times out, one that answers.\<close>

definition failing_client :: groq where
  "failing_client req = Inl (APIError (lit ''Request timed out.''))"

definition answering_client :: groq where
  "answering_client req = Inr [Some ([0x20, 0x0A] @ lit ''You can do it!'' @ [0x0A])]"

text \<open>
  A provider that gives the outcome \<open>outcome\<close> for the request \<open>expected\<close> and answers
  with a question mark for every other request.
\<close>

definition scripted_client :: "request \<Rightarrow> py_exception + completion \<Rightarrow> groq" where
  "scripted_client expected outcome req =
     (if req = expected then outcome else Inr [Some (lit ''?'')])"

text \<open>Seven messages of one chat, numbered.\<close>

definition seven_calls :: "groq option \<Rightarrow> int \<Rightarrow> chat_call list" where
  "seven_calls gc x =
     [(gc, x, lit ''1''), (gc, x, lit ''2''), (gc, x, lit ''3''), (gc, x, lit ''4''),
      (gc, x, lit ''5''), (gc, x, lit ''6''), (gc, x, lit ''7'')]"

section \<open>The daily job\<close>

text \<open>
  What \<open>send_daily_messages\<close> does is a trace: the line logged before the loop with the
  number of subscribers, each call of \<open>context.bot.send_message\<close>, and each warning
  logged with the chat id and the exception.  The bot is what \<open>send_message\<close> does for a
  chat id and a text: it raises or returns.
\<close>

datatype event =
    Log_sending nat
  | Send_message int str
  | Log_failed int py_exception

type_synonym bot = "int \<Rightarrow> str \<Rightarrow> py_exception + unit"

definition daily_message :: "str \<Rightarrow> str" where
  "daily_message quote =
     lit ''Good morning! '' @ [0x1F31E, 0x0A, 0x0A] @ quote @ [0x0A, 0x0A] @
     lit ''Have a great day! '' @ [0x1F4AA]"

text \<open>The loop over \<open>subs\<close>.\<close>

fun send_each :: "bot \<Rightarrow> str \<Rightarrow> int list \<Rightarrow> event list" where
  "send_each b message [] = []"
| "send_each b message (cid # subs) =
     Send_message cid message #
     (case b cid message of Inl e \<Rightarrow> [Log_failed cid e] | Inr u \<Rightarrow> []) @
     send_each b message subs"

text \<open>
  \<open>quote\<close> is the result of \<open>random.choice(QUOTES)\<close>.  The function returns \<open>None\<close>; the
  model returns its trace.
\<close>

definition send_daily_messages :: "bot \<Rightarrow> db \<Rightarrow> str \<Rightarrow> event list" where
  "send_daily_messages b conn quote =
     (let message = daily_message quote;
          subs = get_subscribers conn
      in Log_sending (length subs) # send_each b message subs)"

text \<open>The chat ids of the deliveries attempted and of the failures logged, in order.\<close>

definition attempted :: "event list \<Rightarrow> int list" where
  "attempted tr = concat (map (\<lambda>ev. case ev of Send_message cid m \<Rightarrow> [cid] | _ \<Rightarrow> []) tr)"

definition failures_logged :: "event list \<Rightarrow> int list" where
  "failures_logged tr = concat (map (\<lambda>ev. case ev of Log_failed cid e \<Rightarrow> [cid] | _ \<Rightarrow> []) tr)"

definition counts_logged :: "event list \<Rightarrow> nat list" where
  "counts_logged tr = concat (map (\<lambda>ev. case ev of Log_sending n \<Rightarrow> [n] | _ \<Rightarrow> []) tr)"

definition failing :: "bot \<Rightarrow> str \<Rightarrow> int list \<Rightarrow> int list" where
  "failing b message subs = filter (\<lambda>cid. isl (b cid message)) subs"

text \<open>A bot that cannot reach chat 2, and a table of three subscribers.\<close>

definition blocked_bot :: bot where
  "blocked_bot cid text = (if cid = 2 then Inl (TelegramError (lit ''Forbidden'')) else Inr ())"

definition three_subscribers :: db where
  "three_subscribers =
     [\<lparr>chat_id = 1, first_name = lit ''A'', timezone = TIMEZONE\<rparr>,
      \<lparr>chat_id = 2, first_name = lit ''B'', timezone = TIMEZONE\<rparr>,
      \<lparr>chat_id = 3, first_name = lit ''C'', timezone = TIMEZONE\<rparr>]"

section \<open>Subscriber table: membership\<close>

lemma add_subscriber_bindable:
  assumes "sqlite_integer cid" "utf8_text fname" "utf8_text tz"
  shows "\<exists>conn'. add_subscriber conn cid fname tz = Inr conn' \<and>
           set (get_subscribers conn') = insert cid (set (get_subscribers conn))"
  using assms by (auto simp: get_subscribers_def add_subscriber_def set_insort_key)

lemma remove_subscriber_bindable:
  assumes "sqlite_integer cid"
  shows "\<exists>conn'. remove_subscriber conn cid = Inr conn' \<and>
           set (get_subscribers conn') = set (get_subscribers conn) - {cid}"
  using assms by (auto simp: get_subscribers_def remove_subscriber_def)

lemma store_step_bindable:
  "bindable c \<Longrightarrow>
     \<exists>conn'. store_step conn c = Inr conn' \<and>
       set (get_subscribers conn') = set_step (set (get_subscribers conn)) c"
  by (cases c) (simp_all add: add_subscriber_bindable remove_subscriber_bindable)

lemma store_step_not_bindable: "\<not> bindable c \<Longrightarrow> isl (store_step conn c)"
  by (cases c) (auto simp: add_subscriber_def remove_subscriber_def)

lemma store_all_bindable:
  "list_all bindable cs \<Longrightarrow>
     fst (store_all conn cs) = [] \<and>
     set (get_subscribers (snd (store_all conn cs))) = foldl set_step (set (get_subscribers conn)) cs"
proof (induction cs arbitrary: conn)
  case Nil
  show ?case by simp
next
  case (Cons c cs)
  then have c: "bindable c" and cs: "list_all bindable cs" by simp_all
  from store_step_bindable [OF c, of conn] obtain conn1 where
    step: "store_step conn c = Inr conn1" and
    mem: "set (get_subscribers conn1) = set_step (set (get_subscribers conn)) c"
    by blast
  from Cons.IH [OF cs, of conn1] step mem show ?case by simp
qed

lemma store_all_membership:
  "set (get_subscribers (snd (store_all conn cs))) =
     foldl set_step (set (get_subscribers conn)) (filter bindable cs)"
proof (induction cs arbitrary: conn)
  case Nil
  show ?case by simp
next
  case (Cons c cs)
  show ?case
  proof (cases "bindable c")
    case True
    from store_step_bindable [OF True, of conn] obtain conn1 where
      step: "store_step conn c = Inr conn1" and
      mem: "set (get_subscribers conn1) = set_step (set (get_subscribers conn)) c"
      by blast
    from Cons.IH [of conn1] step mem True show ?thesis by simp
  next
    case False
    from store_step_not_bindable [OF False, of conn] obtain e where
      step: "store_step conn c = Inl e"
      by (cases "store_step conn c") simp_all
    obtain es conn' where rest: "store_all conn cs = (es, conn')"
      by (cases "store_all conn cs")
    from Cons.IH [of conn] rest have
      "set (get_subscribers conn') = foldl set_step (set (get_subscribers conn)) (filter bindable cs)"
      by simp
    with step rest False show ?thesis by simp
  qed
qed

lemma add_subscriber_present:
  "sqlite_integer cid \<Longrightarrow> utf8_text fname \<Longrightarrow> utf8_text tz \<Longrightarrow>
     cid \<in> set (get_subscribers conn) \<Longrightarrow> add_subscriber conn cid fname tz = Inr conn"
  by (simp add: get_subscribers_def add_subscriber_def)

lemma remove_subscriber_absent:
  "sqlite_integer cid \<Longrightarrow> cid \<notin> set (get_subscribers conn) \<Longrightarrow>
     remove_subscriber conn cid = Inr conn"
  by (induction conn) (auto simp: get_subscribers_def remove_subscriber_def)

lemma not_sqlite_integer_raises:
  "\<not> sqlite_integer cid \<Longrightarrow>
     add_subscriber conn cid fname tz = Inl OverflowError \<and>
     remove_subscriber conn cid = Inl OverflowError"
  by (simp add: add_subscriber_def remove_subscriber_def)

text \<open>
  C5.  For every table and every finite sequence of \<open>add_subscriber\<close> and
  \<open>remove_subscriber\<close> calls whose parameters SQLite can bind (chat ids in the signed
  64-bit range, names that are encodable text), no call raises and the set of chat ids in
  the table afterwards is the fold of set insertion and set removal over the sequence,
  starting from the set of chat ids before.  For such parameters, adding a chat id that
  is present returns the table as it is, and so does removing a chat id that is absent;
  neither is an error.  For a chat id outside the signed 64-bit range both functions
  raise \<open>OverflowError\<close>, and in any sequence the calls that raise leave the table as it
  was.
\<close>

theorem store_membership_is_set_fold:
  "(list_all bindable cs \<longrightarrow>
      fst (store_all conn cs) = [] \<and>
      set (get_subscribers (snd (store_all conn cs))) =
        foldl set_step (set (get_subscribers conn)) cs) \<and>
   set (get_subscribers (snd (store_all conn cs))) =
     foldl set_step (set (get_subscribers conn)) (filter bindable cs) \<and>
   (sqlite_integer cid \<and> utf8_text fname \<and> utf8_text tz \<and> cid \<in> set (get_subscribers conn) \<longrightarrow>
      add_subscriber conn cid fname tz = Inr conn) \<and>
   (sqlite_integer cid \<and> cid \<notin> set (get_subscribers conn) \<longrightarrow>
      remove_subscriber conn cid = Inr conn) \<and>
   (\<not> sqlite_integer cid \<longrightarrow>
      add_subscriber conn cid fname tz = Inl OverflowError \<and>
      remove_subscriber conn cid = Inl OverflowError)"
  using store_all_bindable [of cs conn] store_all_membership [of conn cs]
    add_subscriber_present [of cid fname tz conn] remove_subscriber_absent [of cid conn]
    not_sqlite_integer_raises [of cid conn fname tz]
  by blast

theorem store_membership_is_set_fold_witness:
  "list_all bindable
     [Add_subscriber 7 (lit ''Ravi'') (lit ''Asia/Kolkata''), Remove_subscriber 7,
      Remove_subscriber 7, Add_subscriber 7 (lit ''Ravi'') (lit ''Asia/Kolkata''),
      Add_subscriber 7 (lit ''Asha'') (lit ''Asia/Kolkata'')] \<and>
   store_all [\<lparr>chat_id = 7, first_name = lit ''Asha'', timezone = lit ''Asia/Kolkata''\<rparr>]
     [Add_subscriber 7 (lit ''Ravi'') (lit ''Asia/Kolkata''), Remove_subscriber 7,
      Remove_subscriber 7, Add_subscriber 7 (lit ''Ravi'') (lit ''Asia/Kolkata''),
      Add_subscriber 7 (lit ''Asha'') (lit ''Asia/Kolkata'')] =
     ([], [\<lparr>chat_id = 7, first_name = lit ''Ravi'', timezone = lit ''Asia/Kolkata''\<rparr>]) \<and>
   add_subscriber [\<lparr>chat_id = 7, first_name = lit ''Asha'', timezone = lit ''Asia/Kolkata''\<rparr>]
     7 (lit ''Ravi'') (lit ''Asia/Kolkata'') =
     Inr [\<lparr>chat_id = 7, first_name = lit ''Asha'', timezone = lit ''Asia/Kolkata''\<rparr>] \<and>
   remove_subscriber [\<lparr>chat_id = 7, first_name = lit ''Asha'', timezone = lit ''Asia/Kolkata''\<rparr>] 8 =
     Inr [\<lparr>chat_id = 7, first_name = lit ''Asha'', timezone = lit ''Asia/Kolkata''\<rparr>] \<and>
   remove_subscriber [\<lparr>chat_id = 7, first_name = lit ''Asha'', timezone = lit ''Asia/Kolkata''\<rparr>]
     (- 9223372036854775809) = Inl OverflowError"
proof -
  let ?conn = "[\<lparr>chat_id = 7, first_name = lit ''Asha'', timezone = lit ''Asia/Kolkata''\<rparr>]"
  let ?cs = "[Add_subscriber 7 (lit ''Ravi'') (lit ''Asia/Kolkata''), Remove_subscriber 7,
      Remove_subscriber 7, Add_subscriber 7 (lit ''Ravi'') (lit ''Asia/Kolkata''),
      Add_subscriber 7 (lit ''Asha'') (lit ''Asia/Kolkata'')]"
  have t: "utf8_text (lit ''Ravi'')" "utf8_text (lit ''Asha'')" "utf8_text (lit ''Asia/Kolkata'')"
    "utf8_text []"
    by (simp_all add: utf8_text_def lit_def)
  have i: "sqlite_integer 7" "sqlite_integer 8" "\<not> sqlite_integer (- 9223372036854775809)"
    by (simp_all add: sqlite_integer_def)
  have b: "list_all bindable ?cs" using t i by simp
  have run: "store_all ?conn ?cs =
      ([], [\<lparr>chat_id = 7, first_name = lit ''Ravi'', timezone = lit ''Asia/Kolkata''\<rparr>])"
    using t i by (simp add: add_subscriber_def remove_subscriber_def)
  from store_membership_is_set_fold [of ?cs ?conn 7 "lit ''Ravi''" "lit ''Asia/Kolkata''"]
    store_membership_is_set_fold [of "[]" ?conn 8 "[]" "[]"]
    store_membership_is_set_fold [of "[]" ?conn "- 9223372036854775809" "[]" "[]"]
    b run t i
  show ?thesis by (simp add: get_subscribers_def)
qed

text \<open>
  C5, for every id: the chat id \<open>2 ^ 63\<close> is a Python \<open>int\<close> that the table cannot hold,
  and subscribing it raises.
\<close>

theorem id_out_of_range_counterexample:
  "add_subscriber init_db 9223372036854775808 (lit ''A'') (lit ''Asia/Kolkata'') = Inl OverflowError"
  by (simp add: add_subscriber_def sqlite_integer_def)

section \<open>Conversation context: one call and a sequence of calls\<close>

lemma py_slice_from_neg:
  "py_slice_from (- (MAX_HISTORY * 2)) xs = drop (length xs - 10) xs"
  by (auto simp: py_slice_from_def MAX_HISTORY_def Let_def max_def intro: arg_cong2[where f=drop])

lemma py_slice_from_last:
  "py_slice_from (- MAX_HISTORY * 2) xs = drop (length xs - 10) xs"
  using py_slice_from_neg [of xs] by simp

lemma lit_eq_iff [simp]: "lit a = lit b \<longleftrightarrow> a = b"
  unfolding lit_def by (simp add: inj_map_eq_map inj_of_char)


lemma chat_with_groq_None: "chat_with_groq None ctx cid m = (UNAVAILABLE_REPLY, ctx)"
  by (simp add: chat_with_groq_def)

lemma chat_with_groq_Some:
  "chat_with_groq (Some client) ctx cid m =
     (let reply = (case try_reply client (build_messages (get_history ctx cid) m) of
                     Inl e \<Rightarrow> ERROR_REPLY | Inr r \<Rightarrow> r)
      in (reply, ctx(cid \<mapsto> py_slice_from (- MAX_HISTORY * 2)
                (get_history ctx cid @ [(lit ''user'', m), (lit ''assistant'', reply)]))))"
  by (simp add: chat_with_groq_def Let_def)

lemma get_history_upd:
  "get_history (ctx(cid \<mapsto> h)) x = (if x = cid then h else get_history ctx x)"
  by (simp add: get_history_def)

lemma get_history_other:
  "x \<noteq> cid \<Longrightarrow> get_history (snd (chat_with_groq gc ctx cid m)) x = get_history ctx x"
  by (cases gc) (simp_all add: chat_with_groq_None chat_with_groq_Some Let_def get_history_upd)

lemma get_history_same:
  "get_history (snd (chat_with_groq (Some client) ctx cid m)) cid =
     py_slice_from (- MAX_HISTORY * 2)
       (get_history ctx cid @ turns_of [(m, fst (chat_with_groq (Some client) ctx cid m))])"
  by (simp add: chat_with_groq_Some Let_def get_history_upd turns_of_def)

lemma py_slice_from_idem:
  "py_slice_from (- MAX_HISTORY * 2) (py_slice_from (- MAX_HISTORY * 2) xs @ ys) =
     py_slice_from (- MAX_HISTORY * 2) (xs @ ys)"
proof (cases "length xs \<le> 10")
  case True
  then show ?thesis by (simp add: py_slice_from_neg)
next
  case False
  then have "length xs + length ys - (length xs - 10 + 10) + (length xs - 10) =
             length xs + length ys - 10"
    by arith
  then show ?thesis by (simp add: py_slice_from_neg)
qed

lemma py_slice_from_short:
  "length xs \<le> 10 \<Longrightarrow> py_slice_from (- MAX_HISTORY * 2) xs = xs"
  by (simp add: py_slice_from_neg)

lemma length_py_slice_from:
  "length (py_slice_from (- MAX_HISTORY * 2) xs) = min (length xs) 10"
  by (simp add: py_slice_from_neg)

lemma turns_of_Cons: "turns_of ((u, a) # es) = [(lit ''user'', u), (lit ''assistant'', a)] @ turns_of es"
  by (simp add: turns_of_def)

lemma turns_of_append: "turns_of (es @ es') = turns_of es @ turns_of es'"
  by (simp add: turns_of_def)

lemma length_turns_of: "length (turns_of es) = 2 * length es"
  by (induction es) (auto simp: turns_of_def)

lemma drop_turns_of: "drop (2 * k) (turns_of es) = turns_of (drop k es)"
proof (induction es arbitrary: k)
  case Nil
  show ?case by (simp add: turns_of_def)
next
  case (Cons e es)
  obtain u a where e: "e = (u, a)" by (cases e)
  show ?case
  proof (cases k)
    case 0
    then show ?thesis by simp
  next
    case (Suc j)
    with Cons e show ?thesis by (simp add: turns_of_Cons)
  qed
qed

lemma length_chat_all: "chat_all ctx calls = (replies, ctx') \<Longrightarrow> length replies = length calls"
  by (induction calls arbitrary: ctx replies ctx') (auto split: prod.splits)

lemma chat_all_history:
  assumes "\<forall>(gc, cid, m) \<in> set calls. cid = x \<longrightarrow> gc \<noteq> None"
    and "chat_all ctx calls = (replies, ctx')"
  shows "py_slice_from (- MAX_HISTORY * 2) (get_history ctx' x) =
         py_slice_from (- MAX_HISTORY * 2) (get_history ctx x @ turns_of (exchanges_of x calls replies))"
  using assms
proof (induction calls arbitrary: ctx replies ctx')
  case Nil
  then show ?case by (simp add: exchanges_of_def turns_of_def)
next
  case (Cons c calls)
  obtain gc cid m where c: "c = (gc, cid, m)" by (cases c)
  obtain r ctx1 where step: "chat_with_groq gc ctx cid m = (r, ctx1)" by (cases "chat_with_groq gc ctx cid m")
  obtain rs ctx2 where rest: "chat_all ctx1 calls = (rs, ctx2)" by (cases "chat_all ctx1 calls")
  from Cons.prems(2) c step rest have eq: "replies = r # rs" "ctx' = ctx2" by simp_all
  have conf: "\<forall>(gc, cid, m) \<in> set calls. cid = x \<longrightarrow> gc \<noteq> None"
    using Cons.prems(1) by simp
  note IH = Cons.IH [OF conf rest]
  show ?case
  proof (cases "cid = x")
    case False
    then have "get_history ctx1 x = get_history ctx x"
      using get_history_other [of x cid gc ctx m] step by simp
    moreover have "exchanges_of x (c # calls) replies = exchanges_of x calls rs"
      using False c eq by (simp add: exchanges_of_def)
    ultimately show ?thesis using IH eq by simp
  next
    case True
    with Cons.prems(1) c obtain client where gc: "gc = Some client" by auto
    have h1: "get_history ctx1 x = py_slice_from (- MAX_HISTORY * 2) (get_history ctx x @ turns_of [(m, r)])"
      using get_history_same [of client ctx cid m] step gc True by simp
    have ex: "exchanges_of x (c # calls) replies = (m, r) # exchanges_of x calls rs"
      using True c eq by (simp add: exchanges_of_def)
    have "py_slice_from (- MAX_HISTORY * 2) (get_history ctx2 x) =
          py_slice_from (- MAX_HISTORY * 2) (get_history ctx1 x @ turns_of (exchanges_of x calls rs))"
      by (rule IH)
    also have "\<dots> = py_slice_from (- MAX_HISTORY * 2)
          ((get_history ctx x @ turns_of [(m, r)]) @ turns_of (exchanges_of x calls rs))"
      unfolding h1 by (rule py_slice_from_idem)
    also have "\<dots> = py_slice_from (- MAX_HISTORY * 2)
          (get_history ctx x @ turns_of (exchanges_of x (c # calls) replies))"
      unfolding ex by (simp add: turns_of_Cons turns_of_def)
    finally show ?thesis using eq by simp
  qed
qed

lemma chat_all_bounded:
  assumes "\<forall>(gc, cid, m) \<in> set calls. cid = x \<longrightarrow> gc \<noteq> None"
    and "chat_all ctx calls = (replies, ctx')"
    and "length (get_history ctx x) \<le> 10 \<or> exchanges_of x calls replies \<noteq> []"
  shows "length (get_history ctx' x) \<le> 10"
  using assms
proof (induction calls arbitrary: ctx replies ctx')
  case Nil
  then show ?case by (simp add: exchanges_of_def)
next
  case (Cons c calls)
  obtain gc cid m where c: "c = (gc, cid, m)" by (cases c)
  obtain r ctx1 where step: "chat_with_groq gc ctx cid m = (r, ctx1)" by (cases "chat_with_groq gc ctx cid m")
  obtain rs ctx2 where rest: "chat_all ctx1 calls = (rs, ctx2)" by (cases "chat_all ctx1 calls")
  from Cons.prems(2) c step rest have eq: "replies = r # rs" "ctx' = ctx2" by simp_all
  have conf: "\<forall>(gc, cid, m) \<in> set calls. cid = x \<longrightarrow> gc \<noteq> None"
    using Cons.prems(1) by simp
  show ?case
  proof (cases "cid = x")
    case False
    then have "get_history ctx1 x = get_history ctx x"
      using get_history_other [of x cid gc ctx m] step by simp
    moreover have "exchanges_of x (c # calls) replies = exchanges_of x calls rs"
      using False c eq by (simp add: exchanges_of_def)
    ultimately have "length (get_history ctx1 x) \<le> 10 \<or> exchanges_of x calls rs \<noteq> []"
      using Cons.prems(3) by simp
    from Cons.IH [OF conf rest this] eq show ?thesis by simp
  next
    case True
    with Cons.prems(1) c obtain client where gc: "gc = Some client" by auto
    have "get_history ctx1 x = py_slice_from (- MAX_HISTORY * 2) (get_history ctx x @ turns_of [(m, r)])"
      using get_history_same [of client ctx cid m] step gc True by simp
    then have "length (get_history ctx1 x) \<le> 10"
      by (simp add: py_slice_from_neg)
    then have "length (get_history ctx1 x) \<le> 10 \<or> exchanges_of x calls rs \<noteq> []" ..
    from Cons.IH [OF conf rest this] eq show ?thesis by simp
  qed
qed

lemma chat_all_recent:
  assumes conf: "\<forall>(gc, cid, m) \<in> set calls. cid = x \<longrightarrow> gc \<noteq> None"
    and run: "chat_all ctx calls = (replies, ctx')"
    and many: "5 \<le> length (exchanges_of x calls replies)"
  shows "get_history ctx' x =
         turns_of (drop (length (exchanges_of x calls replies) - 5) (exchanges_of x calls replies))"
proof -
  let ?es = "exchanges_of x calls replies"
  from many have ne: "?es \<noteq> []" by auto
  have "length (get_history ctx' x) \<le> 10"
    using chat_all_bounded [OF conf run] ne by simp
  then have "get_history ctx' x = py_slice_from (- MAX_HISTORY * 2) (get_history ctx' x)"
    by (simp add: py_slice_from_neg)
  also have "\<dots> = py_slice_from (- MAX_HISTORY * 2) (get_history ctx x @ turns_of ?es)"
    by (rule chat_all_history [OF conf run])
  also have "\<dots> = drop (length (turns_of ?es) - 10) (turns_of ?es)"
    using many by (simp add: py_slice_from_neg length_turns_of)
  also have "\<dots> = drop (2 * (length ?es - 5)) (turns_of ?es)"
    by (simp add: length_turns_of right_diff_distrib')
  also have "\<dots> = turns_of (drop (length ?es - 5) ?es)"
    by (rule drop_turns_of)
  finally show ?thesis .
qed

lemma chat_with_answering_client:
  "chat_with_groq (Some answering_client) ctx cid m =
     (lit ''You can do it!'',
      ctx(cid \<mapsto> py_slice_from (- MAX_HISTORY * 2)
        (get_history ctx cid @ [(lit ''user'', m), (lit ''assistant'', lit ''You can do it!'')])))"
  by (simp add: chat_with_groq_Some Let_def try_reply_def answering_client_def strip_def isspace_def lit_def)

lemma chat_with_failing_client:
  "chat_with_groq (Some failing_client) ctx cid m =
     (ERROR_REPLY,
      ctx(cid \<mapsto> py_slice_from (- MAX_HISTORY * 2)
        (get_history ctx cid @ [(lit ''user'', m), (lit ''assistant'', ERROR_REPLY)])))"
  by (simp add: chat_with_groq_Some Let_def try_reply_def failing_client_def)

lemma seven_answered:
  "chat_all Map.empty (seven_calls (Some answering_client) 1) =
     ([lit ''You can do it!'', lit ''You can do it!'', lit ''You can do it!'', lit ''You can do it!'',
       lit ''You can do it!'', lit ''You can do it!'', lit ''You can do it!''],
      [1 \<mapsto> turns_of [(lit ''3'', lit ''You can do it!''), (lit ''4'', lit ''You can do it!''),
         (lit ''5'', lit ''You can do it!''), (lit ''6'', lit ''You can do it!''),
         (lit ''7'', lit ''You can do it!'')]])"
  by (simp add: seven_calls_def chat_with_answering_client get_history_def py_slice_from_neg turns_of_def)

lemma seven_unconfigured:
  "chat_all ctx (seven_calls None x) =
     ([UNAVAILABLE_REPLY, UNAVAILABLE_REPLY, UNAVAILABLE_REPLY, UNAVAILABLE_REPLY,
       UNAVAILABLE_REPLY, UNAVAILABLE_REPLY, UNAVAILABLE_REPLY], ctx)"
  by (simp add: seven_calls_def chat_with_groq_None)

text \<open>
  C1.  Take any sequence of calls of \<open>chat_with_groq\<close> in which every call for the
  chat \<open>x\<close> has a provider client, and let \<open>es\<close> be the exchanges (text of the user,
  reply returned) of \<open>x\<close> in it, in the order of the calls.  If there are more than
  \<open>MAX_HISTORY\<close> of them, then whatever the context was before, the history stored for
  \<open>x\<close> afterwards is exactly the turns of the last \<open>MAX_HISTORY\<close> exchanges, in order:
  \<open>2 * MAX_HISTORY\<close> turns.  After 7 exchanges it has 10 turns and begins with the
  third exchange.
\<close>

theorem history_is_recent_exchanges:
  assumes "\<forall>(gc, cid, m) \<in> set calls. cid = x \<longrightarrow> gc \<noteq> None"
    and "chat_all ctx calls = (replies, ctx')"
    and "es = exchanges_of x calls replies"
    and "MAX_HISTORY < int (length es)"
  shows "get_history ctx' x = turns_of (drop (length es - nat MAX_HISTORY) es) \<and>
         int (length (get_history ctx' x)) = 2 * MAX_HISTORY \<and>
         (length es = 7 \<longrightarrow>
            length (get_history ctx' x) = 10 \<and> take 2 (get_history ctx' x) = turns_of [es ! 2])"
proof -
  from assms(4) have many: "5 \<le> length (exchanges_of x calls replies)"
    using assms(3) by (simp add: MAX_HISTORY_def)
  have h: "get_history ctx' x = turns_of (drop (length es - 5) es)"
    using chat_all_recent [OF assms(1) assms(2) many] assms(3) by simp
  have len: "length (get_history ctx' x) = 10"
    using many assms(3) by (simp add: h length_turns_of)
  have third: "take 2 (get_history ctx' x) = turns_of [es ! 2]" if "length es = 7"
  proof -
    from that have "drop 2 es = es ! 2 # drop 3 es"
      using Cons_nth_drop_Suc [of 2 es] by (simp add: numeral_3_eq_3 numeral_2_eq_2)
    with that h have "get_history ctx' x = turns_of (es ! 2 # drop 3 es)" by simp
    then show ?thesis by (cases "es ! 2") (simp add: turns_of_def)
  qed
  have a: "get_history ctx' x = turns_of (drop (length es - nat MAX_HISTORY) es)"
    using h by (simp add: MAX_HISTORY_def)
  have b: "int (length (get_history ctx' x)) = 2 * MAX_HISTORY"
    using len by (simp add: MAX_HISTORY_def)
  have c: "length es = 7 \<longrightarrow>
      length (get_history ctx' x) = 10 \<and> take 2 (get_history ctx' x) = turns_of [es ! 2]"
    using len third by blast
  from a b c show ?thesis by blast
qed

theorem history_is_recent_exchanges_witness:
  "MAX_HISTORY < int (length (exchanges_of 1 (seven_calls (Some answering_client) 1)
     (fst (chat_all Map.empty (seven_calls (Some answering_client) 1))))) \<and>
   get_history (snd (chat_all Map.empty (seven_calls (Some answering_client) 1))) 1 =
     [(lit ''user'', lit ''3''), (lit ''assistant'', lit ''You can do it!''),
      (lit ''user'', lit ''4''), (lit ''assistant'', lit ''You can do it!''),
      (lit ''user'', lit ''5''), (lit ''assistant'', lit ''You can do it!''),
      (lit ''user'', lit ''6''), (lit ''assistant'', lit ''You can do it!''),
      (lit ''user'', lit ''7''), (lit ''assistant'', lit ''You can do it!'')]"
proof -
  let ?calls = "seven_calls (Some answering_client) 1"
  let ?run = "chat_all Map.empty ?calls"
  have conf: "\<forall>(gc, cid, m) \<in> set ?calls. cid = 1 \<longrightarrow> gc \<noteq> None"
    by (simp add: seven_calls_def)
  have run: "?run = (fst ?run, snd ?run)" by simp
  have many: "MAX_HISTORY < int (length (exchanges_of 1 ?calls (fst ?run)))"
    by (simp add: seven_answered) (simp add: seven_calls_def exchanges_of_def MAX_HISTORY_def)
  from history_is_recent_exchanges [OF conf run refl many] many
  show ?thesis
    by (simp add: seven_answered) (simp add: seven_calls_def exchanges_of_def MAX_HISTORY_def turns_of_def)
qed

text \<open>
  C1, without a provider client: seven calls for chat 1 return seven replies and record
  nothing, so the history of chat 1 does not have 10 turns.
\<close>

theorem unconfigured_records_nothing_counterexample:
  "length (fst (chat_all Map.empty (seven_calls None 1))) = 7 \<and>
   length (get_history (snd (chat_all Map.empty (seven_calls None 1))) 1) \<noteq> 10"
  by (simp add: seven_unconfigured get_history_def)

section \<open>The invariant of the histories\<close>

lemma paired_append_exchange:
  "paired h \<Longrightarrow> paired (h @ [(lit ''user'', m), (lit ''assistant'', r)])"
  by (induction h rule: paired.induct) simp_all

lemma paired_even: "paired h \<Longrightarrow> even (length h)"
  by (induction h rule: paired.induct) simp_all

lemma paired_drop: "paired h \<Longrightarrow> paired (drop (2 * k) h)"
proof (induction k arbitrary: h)
  case 0
  then show ?case by simp
next
  case (Suc k)
  show ?case
  proof (cases h rule: paired.cases)
    case 1
    then show ?thesis by simp
  next
    case (2 t)
    with Suc.prems show ?thesis by simp
  next
    case (3 t t' ts)
    with Suc.prems have "paired ts" by simp
    then have "paired (drop (2 * k) ts)" by (rule Suc.IH)
    with 3 show ?thesis by simp
  qed
qed

lemma history_ok_exchange:
  assumes "history_ok h"
  shows "history_ok (py_slice_from (- MAX_HISTORY * 2) (h @ [(lit ''user'', m), (lit ''assistant'', r)]))"
proof -
  let ?h = "h @ [(lit ''user'', m), (lit ''assistant'', r)]"
  from assms have p: "paired ?h"
    by (simp add: history_ok_def paired_append_exchange)
  then have "even (length ?h)" by (rule paired_even)
  then have "even (length ?h - 10)" by simp
  then obtain k where k: "length ?h - 10 = 2 * k" by (blast elim: evenE)
  have eq: "py_slice_from (- MAX_HISTORY * 2) ?h = drop (2 * k) ?h"
    unfolding py_slice_from_last k ..
  have pd: "paired (drop (2 * k) ?h)" using p by (rule paired_drop)
  then have ev: "even (length (drop (2 * k) ?h))" by (rule paired_even)
  have le: "int (length (drop (2 * k) ?h)) \<le> MAX_HISTORY * 2"
    using k by (simp add: MAX_HISTORY_def)
  from pd ev le show ?thesis
    unfolding eq history_ok_def by blast
qed

lemma history_ok_chat_with_groq:
  assumes "history_ok (get_history ctx x)"
  shows "history_ok (get_history (snd (chat_with_groq gc ctx cid m)) x)"
proof (cases "x = cid")
  case False
  with assms show ?thesis by (simp add: get_history_other)
next
  case True
  show ?thesis
  proof (cases gc)
    case None
    with assms show ?thesis by (simp add: chat_with_groq_None)
  next
    case (Some client)
    from assms True have "history_ok (get_history ctx cid)" by simp
    then show ?thesis
      unfolding Some True get_history_same turns_of_def
      using history_ok_exchange [of "get_history ctx cid" m "fst (chat_with_groq (Some client) ctx cid m)"]
      by simp
  qed
qed

lemma history_ok_chat_all:
  "history_ok (get_history ctx x) \<Longrightarrow> history_ok (get_history (snd (chat_all ctx calls)) x)"
proof (induction calls arbitrary: ctx)
  case Nil
  then show ?case by simp
next
  case (Cons c calls)
  obtain gc cid m where c: "c = (gc, cid, m)" by (cases c)
  obtain r ctx1 where step: "chat_with_groq gc ctx cid m = (r, ctx1)"
    by (cases "chat_with_groq gc ctx cid m")
  obtain rs ctx2 where rest: "chat_all ctx1 calls = (rs, ctx2)"
    by (cases "chat_all ctx1 calls")
  have "history_ok (get_history (snd (chat_with_groq gc ctx cid m)) x)"
    using Cons.prems by (rule history_ok_chat_with_groq)
  with step have "history_ok (get_history ctx1 x)" by simp
  then have "history_ok (get_history (snd (chat_all ctx1 calls)) x)"
    by (rule Cons.IH)
  with c step rest show ?case by simp
qed

lemma history_ok_empty: "history_ok (get_history Map.empty x)"
  by (simp add: history_ok_def get_history_def MAX_HISTORY_def)

text \<open>
  C6.  Every history stored in \<open>USER_CONTEXT\<close> has an even number of turns, is made of
  whole pairs of a user turn followed by an assistant turn, and has at most
  \<open>MAX_HISTORY * 2\<close> turns: this holds for every chat after any sequence of calls of
  \<open>chat_with_groq\<close> from the empty context, and each call preserves it (for the chat it
  is about, where the two turns are appended and the list is cut to its last
  \<open>MAX_HISTORY * 2\<close> turns without splitting a pair, and for every other chat).
\<close>

theorem history_pairs_preserved:
  "history_ok (get_history (snd (chat_all Map.empty calls)) x) \<and>
   (history_ok (get_history ctx x) \<longrightarrow>
      history_ok (get_history (snd (chat_with_groq gc ctx cid m)) x))"
  by (simp add: history_ok_chat_all history_ok_empty history_ok_chat_with_groq)

theorem history_pairs_preserved_witness:
  "history_ok (get_history (snd (chat_all Map.empty (seven_calls (Some answering_client) 1))) 1) \<and>
   history_ok (get_history [1 \<mapsto> [(lit ''user'', lit ''1''), (lit ''assistant'', lit ''2'')]] 1) \<and>
   history_ok (get_history (snd (chat_with_groq (Some failing_client)
      [1 \<mapsto> [(lit ''user'', lit ''1''), (lit ''assistant'', lit ''2'')]] 1 (lit ''3''))) 1) \<and>
   get_history (snd (chat_with_groq (Some failing_client)
      [1 \<mapsto> [(lit ''user'', lit ''1''), (lit ''assistant'', lit ''2'')]] 1 (lit ''3''))) 1 =
     [(lit ''user'', lit ''1''), (lit ''assistant'', lit ''2''),
      (lit ''user'', lit ''3''), (lit ''assistant'', ERROR_REPLY)]"
proof -
  have ok: "history_ok (get_history [1 \<mapsto> [(lit ''user'', lit ''1''), (lit ''assistant'', lit ''2'')]] 1)"
    by (simp add: history_ok_def get_history_def MAX_HISTORY_def)
  from history_pairs_preserved
    [of "seven_calls (Some answering_client) 1" 1
        "[1 \<mapsto> [(lit ''user'', lit ''1''), (lit ''assistant'', lit ''2'')]]"
        "Some failing_client" 1 "lit ''3''"] ok
  show ?thesis
    by (simp add: chat_with_failing_client get_history_def py_slice_from_neg)
qed

section \<open>The reply generator\<close>

lemma strip_split:
  "dropWhile isspace s = strip s @ rev (takeWhile isspace (rev (dropWhile isspace s)))"
proof -
  let ?d = "dropWhile isspace s"
  have "rev (takeWhile isspace (rev ?d) @ dropWhile isspace (rev ?d)) = rev (rev ?d)"
    by (simp only: takeWhile_dropWhile_id)
  then have "rev (dropWhile isspace (rev ?d)) @ rev (takeWhile isspace (rev ?d)) = ?d"
    by (simp only: rev_append rev_rev_ident)
  then show ?thesis by (simp only: strip_def)
qed

lemma strip_decompose:
  "\<exists>l r. s = l @ strip s @ r \<and> list_all isspace l \<and> list_all isspace r"
proof -
  let ?l = "takeWhile isspace s"
  let ?r = "rev (takeWhile isspace (rev (dropWhile isspace s)))"
  have "s = ?l @ dropWhile isspace s" by simp
  then have "s = ?l @ strip s @ ?r" using strip_split [of s] by simp
  moreover have "list_all isspace ?l"
    unfolding list_all_iff by (blast dest: set_takeWhileD)
  moreover have "list_all isspace ?r"
    unfolding list_all_iff set_rev by (blast dest: set_takeWhileD)
  ultimately show ?thesis by blast
qed

lemma strip_ends:
  assumes "strip s \<noteq> []"
  shows "\<not> isspace (hd (strip s)) \<and> \<not> isspace (last (strip s))"
proof -
  let ?d = "dropWhile isspace s"
  let ?e = "dropWhile isspace (rev ?d)"
  from assms have e: "?e \<noteq> []" by (simp only: strip_def rev_is_Nil_conv not_False_eq_True)
  then have "\<not> isspace (hd ?e)" by (rule hd_dropWhile)
  moreover have "last (strip s) = hd ?e" using e by (simp only: strip_def last_rev)
  ultimately have l: "\<not> isspace (last (strip s))" by simp
  have dne: "?d \<noteq> []"
  proof
    assume "?d = []"
    then have "?e = dropWhile isspace (rev [])" by (rule arg_cong)
    with e show False by simp
  qed
  then have nd: "\<not> isspace (hd ?d)" by (rule hd_dropWhile)
  have "hd ?d = hd (strip s @ rev (takeWhile isspace (rev ?d)))"
    using strip_split [of s] by (rule arg_cong)
  with assms have "hd ?d = hd (strip s)" by simp
  with nd l show ?thesis by simp
qed

lemma try_reply_answer:
  "client \<lparr>model = lit ''llama-3.1-8b-instant'', messages = msgs, max_tokens = 120\<rparr> =
     Inr (Some txt # choices) \<Longrightarrow> try_reply client msgs = Inr (strip txt)"
  by (simp add: try_reply_def)

lemma try_reply_raises:
  "isl (try_reply client msgs) \<longleftrightarrow>
     (let resp = client \<lparr>model = lit ''llama-3.1-8b-instant'', messages = msgs, max_tokens = 120\<rparr>
      in isl resp \<or> resp = Inr [] \<or> (\<exists>choices. resp = Inr (None # choices)))"
  by (auto simp: try_reply_def Let_def split: sum.splits list.splits option.splits)

lemma slice_after_exchange:
  "py_slice_from (- MAX_HISTORY * 2) (h @ [a, b]) = drop (length h + 2 - 10) (h @ [a, b])"
  unfolding py_slice_from_last by simp

lemma chat_with_groq_stored:
  assumes "h = (case ctx cid of None \<Rightarrow> [] | Some s \<Rightarrow> s)"
  shows "chat_with_groq (Some client) ctx cid m =
     (let reply = (case try_reply client (build_messages h m) of
                     Inl e \<Rightarrow> ERROR_REPLY | Inr r \<Rightarrow> r)
      in (reply, ctx(cid \<mapsto> drop (length h + 2 - 10)
                (h @ [(lit ''user'', m), (lit ''assistant'', reply)]))))"
proof -
  from assms have h: "get_history ctx cid = h" by (simp add: get_history_def)
  show ?thesis
    unfolding chat_with_groq_Some h Let_def slice_after_exchange ..
qed

lemma try_reply_raise:
  "client \<lparr>model = lit ''llama-3.1-8b-instant'', messages = msgs, max_tokens = 120\<rparr> = Inl e \<Longrightarrow>
     try_reply client msgs = Inl e"
  by (simp add: try_reply_def)

text \<open>
  C7.  Let \<open>h\<close> be the history stored for the chat in \<open>USER_CONTEXT\<close> (no turn when the
  chat has no entry).  With a provider client, \<open>chat_with_groq\<close> calls it with the fixed
  system message first, then the turns of \<open>h\<close> in their order and with their stored
  roles, then the new text as a last message of role \<open>user\<close>; when the call answers
  with a first choice whose content is the text \<open>txt\<close>, the reply returned is \<open>txt\<close> with
  the white space at both ends removed: \<open>txt\<close> is the reply between two runs of white
  space, and a reply that is not empty neither begins nor ends with white space.
\<close>

theorem request_and_reply_on_success:
  assumes "h = (case ctx cid of None \<Rightarrow> [] | Some s \<Rightarrow> s)"
    and "client \<lparr>model = lit ''llama-3.1-8b-instant'',
             messages = [SYSTEM_MESSAGE] @
               map (\<lambda>(r, msg). \<lparr>role = r, content = msg\<rparr>) h @
               [\<lparr>role = lit ''user'', content = user_message\<rparr>],
             max_tokens = 120\<rparr> = Inr (Some txt # choices)"
  shows "fst (chat_with_groq (Some client) ctx cid user_message) = strip txt \<and>
         (\<exists>l r. txt = l @ strip txt @ r \<and> list_all isspace l \<and> list_all isspace r) \<and>
         (strip txt \<noteq> [] \<longrightarrow> \<not> isspace (hd (strip txt)) \<and> \<not> isspace (last (strip txt)))"
proof -
  have "try_reply client (build_messages h user_message) = Inr (strip txt)"
    unfolding build_messages_def using assms(2) by (rule try_reply_answer)
  then have "fst (chat_with_groq (Some client) ctx cid user_message) = strip txt"
    by (simp add: chat_with_groq_stored [of h ctx cid, OF assms(1)] Let_def)
  with strip_decompose [of "txt"] strip_ends [of "txt"] show ?thesis by blast
qed

theorem request_and_reply_on_success_witness:
  "fst (chat_with_groq
     (Some (scripted_client
        \<lparr>model = lit ''llama-3.1-8b-instant'',
         messages =
           [SYSTEM_MESSAGE,
            \<lparr>role = lit ''user'', content = lit ''1''\<rparr>,
            \<lparr>role = lit ''assistant'', content = lit ''2''\<rparr>,
            \<lparr>role = lit ''user'', content = lit ''3''\<rparr>],
         max_tokens = 120\<rparr>
        (Inr [Some ([0x20, 0x0A] @ lit ''You can do it!'' @ [0x0A])])))
     [1 \<mapsto> [(lit ''user'', lit ''1''), (lit ''assistant'', lit ''2'')]] 1 (lit ''3'')) =
     lit ''You can do it!''"
proof -
  let ?req = "\<lparr>model = lit ''llama-3.1-8b-instant'',
         messages =
           [SYSTEM_MESSAGE,
            \<lparr>role = lit ''user'', content = lit ''1''\<rparr>,
            \<lparr>role = lit ''assistant'', content = lit ''2''\<rparr>,
            \<lparr>role = lit ''user'', content = lit ''3''\<rparr>],
         max_tokens = 120\<rparr>"
  let ?client = "scripted_client ?req (Inr [Some ([0x20, 0x0A] @ lit ''You can do it!'' @ [0x0A])])"
  let ?h = "[(lit ''user'', lit ''1''), (lit ''assistant'', lit ''2'')]"
  have h: "?h = (case [1 \<mapsto> ?h] (1::int) of None \<Rightarrow> [] | Some s \<Rightarrow> s)" by simp
  have call: "?client \<lparr>model = lit ''llama-3.1-8b-instant'',
             messages = [SYSTEM_MESSAGE] @
               map (\<lambda>(r, msg). \<lparr>role = r, content = msg\<rparr>) ?h @
               [\<lparr>role = lit ''user'', content = lit ''3''\<rparr>],
             max_tokens = 120\<rparr> = Inr (Some ([0x20, 0x0A] @ lit ''You can do it!'' @ [0x0A]) # [])"
    by (simp add: scripted_client_def)
  have s: "strip ([0x20, 0x0A] @ lit ''You can do it!'' @ [0x0A]) = lit ''You can do it!''"
    by (simp add: strip_def isspace_def lit_def)
  from request_and_reply_on_success
    [where h = "?h" and ctx = "[1 \<mapsto> ?h]" and cid = 1 and client = "?client"
       and user_message = "lit ''3''" and ?txt = "[0x20, 0x0A] @ lit ''You can do it!'' @ [0x0A]"
       and choices = "[]", OF h call]
  show ?thesis
    unfolding s by blast
qed

text \<open>
  C10.  Let \<open>h\<close> be the history stored for the chat in \<open>USER_CONTEXT\<close> (no turn when the
  chat has no entry).  Without a provider client, \<open>chat_with_groq\<close> returns its fixed
  text and leaves \<open>USER_CONTEXT\<close> as it is.  With a client whose call raises, it returns
  its other fixed text and stores for the chat the turns of \<open>h\<close> followed by the text of
  the user and that reply, cut to the last 10 turns; every other entry is as before.
  This is exactly what it stores on success, with the stripped answer of the provider
  in the place of the fixed text.
\<close>

theorem fallback_paths_differ_on_context:
  assumes "h = (case ctx cid of None \<Rightarrow> [] | Some s \<Rightarrow> s)"
    and "req = \<lparr>model = lit ''llama-3.1-8b-instant'',
             messages = [SYSTEM_MESSAGE] @
               map (\<lambda>(r, msg). \<lparr>role = r, content = msg\<rparr>) h @
               [\<lparr>role = lit ''user'', content = m\<rparr>],
             max_tokens = 120\<rparr>"
  shows "chat_with_groq None ctx cid m = (UNAVAILABLE_REPLY, ctx) \<and>
   (client req = Inl e \<longrightarrow>
      chat_with_groq (Some client) ctx cid m =
        (ERROR_REPLY,
         ctx(cid \<mapsto> drop (length h + 2 - 10)
           (h @ [(lit ''user'', m), (lit ''assistant'', ERROR_REPLY)])))) \<and>
   (client req = Inr (Some txt # choices) \<longrightarrow>
      chat_with_groq (Some client) ctx cid m =
        (strip txt,
         ctx(cid \<mapsto> drop (length h + 2 - 10)
           (h @ [(lit ''user'', m), (lit ''assistant'', strip txt)]))))"
proof -
  have raise: "chat_with_groq (Some client) ctx cid m =
        (ERROR_REPLY,
         ctx(cid \<mapsto> drop (length h + 2 - 10)
           (h @ [(lit ''user'', m), (lit ''assistant'', ERROR_REPLY)])))"
    if "client req = Inl e"
  proof -
    from that have "try_reply client (build_messages h m) = Inl e"
      unfolding build_messages_def assms(2) by (rule try_reply_raise)
    then show ?thesis
      unfolding chat_with_groq_stored [of h ctx cid, OF assms(1)] Let_def by simp
  qed
  have answer: "chat_with_groq (Some client) ctx cid m =
        (strip txt,
         ctx(cid \<mapsto> drop (length h + 2 - 10)
           (h @ [(lit ''user'', m), (lit ''assistant'', strip txt)])))"
    if "client req = Inr (Some txt # choices)"
  proof -
    from that have "try_reply client (build_messages h m) = Inr (strip txt)"
      unfolding build_messages_def assms(2) by (rule try_reply_answer)
    then show ?thesis
      unfolding chat_with_groq_stored [of h ctx cid, OF assms(1)] Let_def by simp
  qed
  from raise answer chat_with_groq_None [of ctx cid m] show ?thesis by blast
qed

theorem fallback_paths_differ_on_context_witness:
  "chat_with_groq None
     [1 \<mapsto> [(lit ''user'', lit ''1''), (lit ''assistant'', lit ''2'')]] 1 (lit ''3'') =
     (UNAVAILABLE_REPLY, [1 \<mapsto> [(lit ''user'', lit ''1''), (lit ''assistant'', lit ''2'')]]) \<and>
   chat_with_groq
     (Some (scripted_client
        \<lparr>model = lit ''llama-3.1-8b-instant'',
         messages =
           [SYSTEM_MESSAGE,
            \<lparr>role = lit ''user'', content = lit ''1''\<rparr>,
            \<lparr>role = lit ''assistant'', content = lit ''2''\<rparr>,
            \<lparr>role = lit ''user'', content = lit ''3''\<rparr>],
         max_tokens = 120\<rparr>
        (Inl (APIError (lit ''Request timed out.'')))))
     [1 \<mapsto> [(lit ''user'', lit ''1''), (lit ''assistant'', lit ''2'')]] 1 (lit ''3'') =
     (ERROR_REPLY,
      [1 \<mapsto> [(lit ''user'', lit ''1''), (lit ''assistant'', lit ''2''),
              (lit ''user'', lit ''3''), (lit ''assistant'', ERROR_REPLY)]]) \<and>
   chat_with_groq
     (Some (scripted_client
        \<lparr>model = lit ''llama-3.1-8b-instant'',
         messages =
           [SYSTEM_MESSAGE,
            \<lparr>role = lit ''user'', content = lit ''1''\<rparr>,
            \<lparr>role = lit ''assistant'', content = lit ''2''\<rparr>,
            \<lparr>role = lit ''user'', content = lit ''3''\<rparr>],
         max_tokens = 120\<rparr>
        (Inr [Some ([0x20, 0x0A] @ lit ''You can do it!'' @ [0x0A])])))
     [1 \<mapsto> [(lit ''user'', lit ''1''), (lit ''assistant'', lit ''2'')]] 1 (lit ''3'') =
     (lit ''You can do it!'',
      [1 \<mapsto> [(lit ''user'', lit ''1''), (lit ''assistant'', lit ''2''),
              (lit ''user'', lit ''3''), (lit ''assistant'', lit ''You can do it!'')]])"
proof -
  let ?h = "[(lit ''user'', lit ''1''), (lit ''assistant'', lit ''2'')]"
  let ?req = "\<lparr>model = lit ''llama-3.1-8b-instant'',
             messages = [SYSTEM_MESSAGE] @
               map (\<lambda>(r, msg). \<lparr>role = r, content = msg\<rparr>) ?h @
               [\<lparr>role = lit ''user'', content = lit ''3''\<rparr>],
             max_tokens = 120\<rparr>"
  let ?expected = "\<lparr>model = lit ''llama-3.1-8b-instant'',
         messages =
           [SYSTEM_MESSAGE,
            \<lparr>role = lit ''user'', content = lit ''1''\<rparr>,
            \<lparr>role = lit ''assistant'', content = lit ''2''\<rparr>,
            \<lparr>role = lit ''user'', content = lit ''3''\<rparr>],
         max_tokens = 120\<rparr>"
  let ?failing = "scripted_client ?expected (Inl (APIError (lit ''Request timed out.'')))"
  let ?answering = "scripted_client ?expected
      (Inr [Some ([0x20, 0x0A] @ lit ''You can do it!'' @ [0x0A])])"
  have h: "?h = (case [1 \<mapsto> ?h] (1::int) of None \<Rightarrow> [] | Some s \<Rightarrow> s)" by simp
  have f: "?failing ?req = Inl (APIError (lit ''Request timed out.''))"
    by (simp add: scripted_client_def)
  have a: "?answering ?req = Inr (Some ([0x20, 0x0A] @ lit ''You can do it!'' @ [0x0A]) # [])"
    by (simp add: scripted_client_def)
  have s: "strip ([0x20, 0x0A] @ lit ''You can do it!'' @ [0x0A]) = lit ''You can do it!''"
    by (simp add: strip_def isspace_def lit_def)
  have u: "[1 \<mapsto> ?h](1 \<mapsto> drop (length ?h + 2 - 10) (?h @ [x, y])) = [(1::int) \<mapsto> ?h @ [x, y]]"
    for x y :: turn
    by simp
  from fallback_paths_differ_on_context
    [where h = "?h" and ctx = "[1 \<mapsto> ?h]" and cid = 1 and req = "?req" and m = "lit ''3''"
       and client = "?failing" and e = "APIError (lit ''Request timed out.'')", OF h refl]
    f
  have 1: "chat_with_groq None [1 \<mapsto> ?h] 1 (lit ''3'') = (UNAVAILABLE_REPLY, [1 \<mapsto> ?h])"
    and 2: "chat_with_groq (Some ?failing) [1 \<mapsto> ?h] 1 (lit ''3'') =
      (ERROR_REPLY, [1 \<mapsto> ?h @ [(lit ''user'', lit ''3''), (lit ''assistant'', ERROR_REPLY)]])"
    unfolding u by blast+
  from fallback_paths_differ_on_context
    [where h = "?h" and ctx = "[1 \<mapsto> ?h]" and cid = 1 and req = "?req" and m = "lit ''3''"
       and client = "?answering" and ?txt = "[0x20, 0x0A] @ lit ''You can do it!'' @ [0x0A]"
       and choices = "[]", OF h refl]
    a
  have 3: "chat_with_groq (Some ?answering) [1 \<mapsto> ?h] 1 (lit ''3'') =
      (lit ''You can do it!'',
       [1 \<mapsto> ?h @ [(lit ''user'', lit ''3''), (lit ''assistant'', lit ''You can do it!'')]])"
    unfolding u s by blast
  from 1 2 3 show ?thesis by simp
qed






section \<open>The daily job: deliveries and failures\<close>

lemma attempted_send_each: "attempted (send_each b message subs) = subs"
  by (induction subs) (auto simp: attempted_def split: sum.splits)

lemma failures_logged_send_each:
  "failures_logged (send_each b message subs) = failing b message subs"
  by (induction subs) (auto simp: failures_logged_def failing_def split: sum.splits)

lemma counts_logged_send_each: "counts_logged (send_each b message subs) = []"
  by (induction subs) (auto simp: counts_logged_def split: sum.splits)

lemma send_each_concat:
  "send_each b message subs =
     concat (map (\<lambda>cid. Send_message cid message #
        (case b cid message of Inl e \<Rightarrow> [Log_failed cid e] | Inr u \<Rightarrow> [])) subs)"
  by (induction subs) simp_all

lemma send_each_append:
  "send_each b message (subs @ subs') = send_each b message subs @ send_each b message subs'"
  by (induction subs) simp_all

lemma broadcast_three:
  "send_daily_messages blocked_bot three_subscribers q =
     [Log_sending 3, Send_message 1 (daily_message q), Send_message 2 (daily_message q),
      Log_failed 2 (TelegramError (lit ''Forbidden'')), Send_message 3 (daily_message q)]"
  by (simp add: send_daily_messages_def Let_def get_subscribers_def three_subscribers_def blocked_bot_def)

text \<open>
  C4.  For every table of subscribers, every bot and every quote,
  \<open>send_daily_messages\<close> reads the list of chat ids once and calls \<open>send_message\<close> exactly
  once for every chat id of the list, in its order and with the same text, whatever the
  calls before did: a call that raises is followed by a warning logged with that chat
  id and by the call for the next chat id.  The chat ids of the warnings are exactly
  the chat ids whose delivery failed, and no chat id is tried twice.
\<close>

theorem broadcast_attempts_every_subscriber:
  "send_daily_messages b conn quote =
     Log_sending (length (get_subscribers conn)) #
     concat (map (\<lambda>cid. Send_message cid (daily_message quote) #
        (case b cid (daily_message quote) of Inl e \<Rightarrow> [Log_failed cid e] | Inr u \<Rightarrow> []))
       (get_subscribers conn)) \<and>
   attempted (send_daily_messages b conn quote) = get_subscribers conn \<and>
   failures_logged (send_daily_messages b conn quote) =
     failing b (daily_message quote) (get_subscribers conn)"
  by (simp add: send_daily_messages_def Let_def send_each_concat [symmetric]
      attempted_send_each failures_logged_send_each)
    (simp add: attempted_def failures_logged_def attempted_send_each [unfolded attempted_def]
      failures_logged_send_each [unfolded failures_logged_def])

theorem broadcast_attempts_every_subscriber_witness:
  "attempted (send_daily_messages blocked_bot three_subscribers []) = [1, 2, 3] \<and>
   failures_logged (send_daily_messages blocked_bot three_subscribers []) = [2] \<and>
   send_daily_messages blocked_bot three_subscribers [] =
     [Log_sending 3, Send_message 1 (daily_message []), Send_message 2 (daily_message []),
      Log_failed 2 (TelegramError (lit ''Forbidden'')), Send_message 3 (daily_message [])]"
  using broadcast_attempts_every_subscriber [of blocked_bot three_subscribers "[]"]
  by (simp add: get_subscribers_def three_subscribers_def blocked_bot_def failing_def
      attempted_def failures_logged_def)

text \<open>
  C8.  \<open>send_daily_messages\<close> returns nothing and logs one count only, before the loop:
  the number of subscribers, which is the number of deliveries it then attempts.  It
  computes no count of failures; it logs one warning for each delivery that failed, so
  when the delivery to exactly one chat id fails, exactly one failure is logged, with
  that chat id.
\<close>

theorem broadcast_logs_each_failure:
  "counts_logged (send_daily_messages b conn quote) = [length (get_subscribers conn)] \<and>
   length (attempted (send_daily_messages b conn quote)) = length (get_subscribers conn) \<and>
   length (failures_logged (send_daily_messages b conn quote)) =
     length (failing b (daily_message quote) (get_subscribers conn)) \<and>
   (failing b (daily_message quote) (get_subscribers conn) = [cid] \<longrightarrow>
      failures_logged (send_daily_messages b conn quote) = [cid])"
  by (simp add: send_daily_messages_def Let_def)
    (simp add: counts_logged_def attempted_def failures_logged_def
      counts_logged_send_each [unfolded counts_logged_def]
      attempted_send_each [unfolded attempted_def]
      failures_logged_send_each [unfolded failures_logged_def])

theorem broadcast_logs_each_failure_witness:
  "failing blocked_bot (daily_message []) (get_subscribers three_subscribers) = [2] \<and>
   failures_logged (send_daily_messages blocked_bot three_subscribers []) = [2] \<and>
   counts_logged (send_daily_messages blocked_bot three_subscribers []) = [3]"
proof -
  have f: "failing blocked_bot (daily_message []) (get_subscribers three_subscribers) = [2]"
    by (simp add: failing_def get_subscribers_def three_subscribers_def blocked_bot_def)
  from broadcast_logs_each_failure [of blocked_bot three_subscribers "[]" 2] f
  show ?thesis by (simp add: get_subscribers_def three_subscribers_def)
qed

text \<open>
  C8, as stated: with three subscribers and a bot that cannot reach one of them, there
  is one failure, and the only count in the trace is the number of subscribers, 3.
\<close>

theorem no_failure_count_counterexample:
  "length (failing blocked_bot (daily_message []) (get_subscribers three_subscribers)) = 1 \<and>
   counts_logged (send_daily_messages blocked_bot three_subscribers []) = [3]"
  by (simp add: broadcast_three counts_logged_def)
    (simp add: failing_def get_subscribers_def three_subscribers_def blocked_bot_def)

end
